theory Spec2Isabelle
  imports Complex_Main
begin

section \<open>Camera.py: the preview, photo and recording lifecycle\<close>

text \<open>
  The program has two threads of control: the GUI thread, which runs the slots of
  \<open>CameraApp\<close> one after the other from the Qt event loop, and one thread per
  \<open>VideoRecorder\<close> object, which runs \<open>VideoRecorder.run\<close>. The model is a labelled
  transition system. A slot of \<open>CameraApp\<close> is one transition, except where it blocks in
  \<open>QThread.wait()\<close> and except \<open>closeEvent\<close>, which is split after its first statement;
  \<open>run\<close> is split at its statements, so that the two threads interleave at statement
  boundaries. What the outside world answers (the frame a read yields, the directory a dialog
  returns, the clock, whether the encoder opens, whether a rename succeeds) is carried by the
  label of the transition.
\<close>

subsection \<open>Values from outside the program\<close>

datatype error = OSError | AttributeError

datatype frame = Frame nat

text \<open>The fields of \<open>datetime.now()\<close> that the format \<open>%Y%m%d_%H%M%S\<close> prints.\<close>

record datetime =
  year :: nat
  month :: nat
  day :: nat
  hour :: nat
  minute :: nat
  second :: nat

definition digit :: "nat \<Rightarrow> char" where
  "digit n = ''0123456789'' ! (n mod 10)"

definition dec2 :: "nat \<Rightarrow> string" where
  "dec2 n = [digit (n div 10), digit n]"

definition dec4 :: "nat \<Rightarrow> string" where
  "dec4 n = [digit (n div 1000), digit (n div 100), digit (n div 10), digit n]"

text \<open>
  \<open>now.strftime("%Y%m%d_%H%M%S")\<close>: zero-padded decimal fields (years 1000 to 9999, which
  covers every value the clock of a running machine gives).
\<close>

definition strftime :: "datetime \<Rightarrow> string" where
  "strftime t = dec4 (year t) @ dec2 (month t) @ dec2 (day t) @ ''_''
                @ dec2 (hour t) @ dec2 (minute t) @ dec2 (second t)"

text \<open>\<open>os.path.join(a, b)\<close> for two components, with the POSIX separator.\<close>

definition path_join :: "string \<Rightarrow> string \<Rightarrow> string" where
  "path_join a b =
     (if b \<noteq> [] \<and> hd b = CHR ''/'' then b
      else if a = [] \<or> last a = CHR ''/'' then a @ b
      else a @ ''/'' @ b)"

text \<open>\<open>int(x)\<close> on a float: truncation towards zero.\<close>

definition py_int :: "real \<Rightarrow> int" where
  "py_int x = (if x < 0 then \<lceil>x\<rceil> else \<lfloor>x\<rfloor>)"

subsection \<open>The capture handle (\<open>cv.VideoCapture\<close>)\<close>

record VideoCapture =
  cap_isOpened :: bool
  cap_release_calls :: nat

text \<open>
  \<open>cap.read()\<close>: the device's answer (\<open>None\<close> for \<open>ret = False\<close>) while the handle is
  open; a released handle yields no frame.
\<close>

definition cap_read :: "VideoCapture \<Rightarrow> frame option \<Rightarrow> frame option" where
  "cap_read c dev = (if cap_isOpened c then dev else None)"

text \<open>\<open>cap.get(prop)\<close>: the device's answer while the handle is open, \<open>0\<close> otherwise.\<close>

definition cap_get :: "VideoCapture \<Rightarrow> real \<Rightarrow> real" where
  "cap_get c dev = (if cap_isOpened c then dev else 0)"

definition cap_release :: "VideoCapture \<Rightarrow> VideoCapture" where
  "cap_release c = c\<lparr>cap_isOpened := False, cap_release_calls := Suc (cap_release_calls c)\<rparr>"

subsection \<open>The encoder sink (\<open>cv.VideoWriter\<close>)\<close>

record VideoWriter =
  vw_filename :: string
  vw_fourcc :: string
  vw_fps :: real
  vw_frameSize :: "int \<times> int"
  vw_isOpened :: bool
  vw_frames :: "frame list"
  vw_release_calls :: nat

text \<open>
  The constructor; \<open>ok\<close> says whether the sink could be opened. The constructor does not
  raise when it could not: the object is then simply not opened.
\<close>

definition VideoWriter_init ::
  "string \<Rightarrow> string \<Rightarrow> real \<Rightarrow> int \<times> int \<Rightarrow> bool \<Rightarrow> VideoWriter" where
  "VideoWriter_init name fourcc fps sz ok =
     \<lparr>vw_filename = name, vw_fourcc = fourcc, vw_fps = fps, vw_frameSize = sz,
      vw_isOpened = ok, vw_frames = [], vw_release_calls = 0\<rparr>"

text \<open>\<open>out.write(frame)\<close>: appends to an opened sink, does nothing on one that is not.\<close>

definition vw_write :: "VideoWriter \<Rightarrow> frame \<Rightarrow> VideoWriter" where
  "vw_write w f = (if vw_isOpened w then w\<lparr>vw_frames := vw_frames w @ [f]\<rparr> else w)"

definition vw_release :: "VideoWriter \<Rightarrow> VideoWriter" where
  "vw_release w = w\<lparr>vw_isOpened := False, vw_release_calls := Suc (vw_release_calls w)\<rparr>"

subsection \<open>The file system\<close>

text \<open>
  \<open>os.rename(src, dst)\<close>: raises when the source does not exist or when the operating
  system refuses the move (\<open>ok = False\<close>: another device, no permission).
\<close>

definition os_rename :: "bool \<Rightarrow> string \<Rightarrow> string \<Rightarrow> string set \<Rightarrow> error + string set" where
  "os_rename ok src dst fs =
     (if ok \<and> src \<in> fs then Inr (insert dst (fs - {src})) else Inl OSError)"

subsection \<open>\<open>VideoRecorder\<close>\<close>

text \<open>Where the thread of a recorder stands in \<open>run\<close> (the line it executes next).\<close>

datatype wpc =
    NotStarted
  | AtOpen
  | AtSetFlag
  | AtEmitStarted
  | AtLoopTest
  | AtRead
  | AtWrite frame
  | AtRelease
  | AtEmitStopped
  | Finished

datatype signal = recording_started | recording_stopped string

record VideoRecorder =
  out :: "VideoWriter option"
  is_recording :: bool
  temp_file_name :: string
  pc :: wpc

definition VideoRecorder_init :: "datetime \<Rightarrow> VideoRecorder" where
  "VideoRecorder_init now =
     \<lparr>out = None, is_recording = False,
      temp_file_name = ''Recorder_'' @ strftime now @ ''.avi'', pc = NotStarted\<rparr>"

text \<open>\<open>QThread.start()\<close>: the thread will begin \<open>run\<close>.\<close>

definition start :: "VideoRecorder \<Rightarrow> VideoRecorder" where
  "start r = (if pc r = NotStarted then r\<lparr>pc := AtOpen\<rparr> else r)"

definition stop :: "VideoRecorder \<Rightarrow> VideoRecorder" where
  "stop r = r\<lparr>is_recording := False\<rparr>"

definition isRunning :: "VideoRecorder \<Rightarrow> bool" where
  "isRunning r = (pc r \<noteq> NotStarted \<and> pc r \<noteq> Finished)"

text \<open>The recorder is in the loop of \<open>run\<close> (lines 27 to 30).\<close>

definition in_loop :: "VideoRecorder \<Rightarrow> bool" where
  "in_loop r = (case pc r of AtLoopTest \<Rightarrow> True | AtRead \<Rightarrow> True | AtWrite f \<Rightarrow> True
                | _ \<Rightarrow> False)"

subsection \<open>The application and its surroundings\<close>

datatype ui_pc = UiIdle | UiWait nat bool | UiClosing | UiClosed

text \<open>
  \<open>heap\<close> holds every \<open>VideoRecorder\<close> object ever created, \<open>video_thread\<close> is the
  reference the application keeps (an index into the heap), \<open>queue\<close> the signals emitted by
  recorder threads and not yet delivered to the GUI thread (the connections are queued:
  emitter and receiver live in different threads), \<open>ui\<close> where the GUI thread stands.
\<close>

record sys =
  cap :: VideoCapture
  video_thread :: "nat option"
  video_btn :: string
  picture_box :: "frame option"
  heap :: "VideoRecorder list"
  queue :: "signal list"
  files :: "string set"
  images :: "(string \<times> frame) list"
  prompts :: "string list"
  notices :: "string list"
  ui :: ui_pc
  uncaught :: "error option"

text \<open>What the device and the operating system answer to one statement of \<open>run\<close>.\<close>

record env =
  dev_frame :: "frame option"
  dev_width :: real
  dev_height :: real
  open_ok :: bool

definition init :: sys where
  "init = \<lparr>cap = \<lparr>cap_isOpened = True, cap_release_calls = 0\<rparr>, video_thread = None,
           video_btn = ''Record Video'', picture_box = None, heap = [], queue = [],
           files = {}, images = [], prompts = [], notices = [], ui = UiIdle,
           uncaught = None\<rparr>"

subsection \<open>\<open>VideoRecorder.run\<close>, one statement at a time\<close>

definition set_rec :: "nat \<Rightarrow> VideoRecorder \<Rightarrow> sys \<Rightarrow> sys" where
  "set_rec t r s = s\<lparr>heap := (heap s)[t := r]\<rparr>"

definition run_step :: "env \<Rightarrow> nat \<Rightarrow> sys \<Rightarrow> sys" where
  "run_step e t s =
     (let r = heap s ! t in
      case pc r of
        NotStarted \<Rightarrow> s
      | AtOpen \<Rightarrow>
          (let frame_width = py_int (cap_get (cap s) (dev_width e));
               frame_height = py_int (cap_get (cap s) (dev_height e));
               w = VideoWriter_init (temp_file_name r) ''XVID'' 30
                     (frame_width, frame_height) (open_ok e)
           in (set_rec t (r\<lparr>out := Some w, pc := AtSetFlag\<rparr>) s)
                \<lparr>files := (if open_ok e then insert (temp_file_name r) (files s)
                            else files s)\<rparr>)
      | AtSetFlag \<Rightarrow> set_rec t (r\<lparr>is_recording := True, pc := AtEmitStarted\<rparr>) s
      | AtEmitStarted \<Rightarrow>
          (set_rec t (r\<lparr>pc := AtLoopTest\<rparr>) s)\<lparr>queue := queue s @ [recording_started]\<rparr>
      | AtLoopTest \<Rightarrow>
          set_rec t (r\<lparr>pc := (if is_recording r then AtRead else AtRelease)\<rparr>) s
      | AtRead \<Rightarrow>
          (case cap_read (cap s) (dev_frame e) of
             None \<Rightarrow> set_rec t (r\<lparr>pc := AtLoopTest\<rparr>) s
           | Some f \<Rightarrow> set_rec t (r\<lparr>pc := AtWrite f\<rparr>) s)
      | AtWrite f \<Rightarrow>
          (case out r of
             None \<Rightarrow> s\<lparr>uncaught := Some AttributeError\<rparr>
           | Some w \<Rightarrow> set_rec t (r\<lparr>out := Some (vw_write w f), pc := AtLoopTest\<rparr>) s)
      | AtRelease \<Rightarrow>
          (case out r of
             None \<Rightarrow> s\<lparr>uncaught := Some AttributeError\<rparr>
           | Some w \<Rightarrow> set_rec t (r\<lparr>out := Some (vw_release w), pc := AtEmitStopped\<rparr>) s)
      | AtEmitStopped \<Rightarrow>
          (set_rec t (r\<lparr>pc := Finished\<rparr>) s)
            \<lparr>queue := queue s @ [recording_stopped (temp_file_name r)]\<rparr>
      | Finished \<Rightarrow> s)"

subsection \<open>The slots of \<open>CameraApp\<close>\<close>

definition update_frame :: "frame option \<Rightarrow> sys \<Rightarrow> sys" where
  "update_frame dev s =
     (case cap_read (cap s) dev of
        None \<Rightarrow> s
      | Some f \<Rightarrow> s\<lparr>picture_box := Some f\<rparr>)"

definition save_image :: "frame option \<Rightarrow> string \<Rightarrow> datetime \<Rightarrow> sys \<Rightarrow> sys" where
  "save_image dev save_dir now s =
     (case cap_read (cap s) dev of
        None \<Rightarrow> s
      | Some f \<Rightarrow>
          (let s1 = s\<lparr>prompts := prompts s @ [''Select Directory'']\<rparr> in
           if save_dir \<noteq> [] then
             (let file_name = ''capture_'' @ strftime now @ ''.jpg'';
                  path = path_join save_dir file_name
              in s1\<lparr>images := images s1 @ [(path, f)], files := insert path (files s1)\<rparr>)
           else s1))"

definition start_video_recording :: "datetime \<Rightarrow> sys \<Rightarrow> sys" where
  "start_video_recording now s =
     s\<lparr>heap := heap s @ [start (VideoRecorder_init now)],
       video_thread := Some (length (heap s))\<rparr>"

definition stop_video_recording :: "sys \<Rightarrow> sys" where
  "stop_video_recording s =
     (case video_thread s of
        None \<Rightarrow> s
      | Some t \<Rightarrow> (set_rec t (stop (heap s ! t)) s)\<lparr>ui := UiWait t False\<rparr>)"

definition toggle_video_recording :: "datetime \<Rightarrow> sys \<Rightarrow> sys" where
  "toggle_video_recording now s =
     (if video_thread s = None \<or> \<not> is_recording (heap s ! the (video_thread s))
      then start_video_recording now s
      else stop_video_recording s)"

definition on_recording_started :: "sys \<Rightarrow> sys" where
  "on_recording_started s = s\<lparr>video_btn := ''Stop Recording''\<rparr>"

definition on_recording_stopped :: "string \<Rightarrow> string \<Rightarrow> bool \<Rightarrow> sys \<Rightarrow> sys" where
  "on_recording_stopped temp save_dir ok s =
     (let s1 = s\<lparr>video_btn := ''Record Video'',
                 prompts := prompts s @ [''Select Directory to Save Video'']\<rparr> in
      if save_dir \<noteq> [] then
        (let final_path = path_join save_dir temp in
         case os_rename ok temp final_path (files s1) of
           Inl err \<Rightarrow> s1\<lparr>uncaught := Some err\<rparr>
         | Inr fs \<Rightarrow> s1\<lparr>files := fs,
                        notices := notices s1 @ [''Video saved to: '' @ final_path],
                        video_thread := None\<rparr>)
      else s1\<lparr>video_thread := None\<rparr>)"

text \<open>
  What happens while the slot \<open>save_image\<close> runs, in the order in which it happens: the
  slot is entered at \<open>clicked_at\<close>, line 90 reads a frame, the modal dialog of line 92
  returns the directory the user chose, and line 94 reads the clock, which then shows
  \<open>dialog_closed_at\<close>. The slot never looks at the clock before line 94.
\<close>

record photo_run =
  clicked_at :: datetime
  frame_read :: "frame option"
  chosen_dir :: string
  dialog_closed_at :: datetime

definition save_image_run :: "photo_run \<Rightarrow> sys \<Rightarrow> sys" where
  "save_image_run a s = save_image (frame_read a) (chosen_dir a) (dialog_closed_at a) s"

text \<open>\<open>closeEvent\<close>, line 140, and then lines 141 to 143 up to the blocking wait.\<close>

definition closeEvent_release :: "sys \<Rightarrow> sys" where
  "closeEvent_release s = s\<lparr>cap := cap_release (cap s), ui := UiClosing\<rparr>"

definition closeEvent_stop :: "sys \<Rightarrow> sys" where
  "closeEvent_stop s =
     (case video_thread s of
        None \<Rightarrow> s\<lparr>ui := UiClosed\<rparr>
      | Some t \<Rightarrow> (set_rec t (stop (heap s ! t)) s)\<lparr>ui := UiWait t True\<rparr>)"

text \<open>\<open>QThread.wait()\<close> returns once the thread is not running.\<close>

definition wait_returns :: "sys \<Rightarrow> sys option" where
  "wait_returns s =
     (case ui s of
        UiWait t closing \<Rightarrow>
          if t < length (heap s) \<and> isRunning (heap s ! t) then None
          else Some (s\<lparr>ui := (if closing then UiClosed else UiIdle)\<rparr>)
      | _ \<Rightarrow> None)"

subsection \<open>The transition system\<close>

datatype event =
    Tick "frame option"
  | PhotoClick "frame option" string datetime
  | VideoClick datetime
  | Deliver string bool
  | Close
  | CloseStop
  | WaitDone
  | Work nat env

definition deliver :: "string \<Rightarrow> bool \<Rightarrow> sys \<Rightarrow> sys option" where
  "deliver save_dir ok s =
     (case queue s of
        [] \<Rightarrow> None
      | recording_started # q \<Rightarrow> Some (on_recording_started (s\<lparr>queue := q\<rparr>))
      | recording_stopped temp # q \<Rightarrow>
          Some (on_recording_stopped temp save_dir ok (s\<lparr>queue := q\<rparr>)))"

fun step :: "event \<Rightarrow> sys \<Rightarrow> sys option" where
  "step (Tick dev) s = (if ui s = UiIdle then Some (update_frame dev s) else None)"
| "step (PhotoClick dev d now) s =
     (if ui s = UiIdle then Some (save_image dev d now s) else None)"
| "step (VideoClick now) s =
     (if ui s = UiIdle then Some (toggle_video_recording now s) else None)"
| "step (Deliver d ok) s = (if ui s = UiIdle then deliver d ok s else None)"
| "step Close s = (if ui s = UiIdle then Some (closeEvent_release s) else None)"
| "step CloseStop s = (if ui s = UiClosing then Some (closeEvent_stop s) else None)"
| "step WaitDone s = wait_returns s"
| "step (Work t e) s =
     (if t < length (heap s) \<and> isRunning (heap s ! t) then Some (run_step e t s) else None)"

text \<open>An exception that nothing catches ends the program: no transition follows it.\<close>

definition next_state :: "event \<Rightarrow> sys \<Rightarrow> sys option" where
  "next_state ev s = (if uncaught s \<noteq> None then None else step ev s)"

fun exec :: "event list \<Rightarrow> sys \<Rightarrow> sys option" where
  "exec [] s = Some s"
| "exec (ev # evs) s = (case next_state ev s of None \<Rightarrow> None | Some s' \<Rightarrow> exec evs s')"

subsection \<open>Blocking in \<open>QThread.wait()\<close>\<close>

text \<open>
  While the GUI thread is blocked in \<open>wait()\<close> on recorder \<open>t\<close>, that recorder's thread
  runs on, one statement of \<open>run\<close> per answer of the outside world in \<open>es\<close>. The result is
  \<open>None\<close> when the thread is still running after all of \<open>es\<close>, or when it died of an
  exception: then \<open>wait()\<close> has not returned.
\<close>

fun join :: "env list \<Rightarrow> nat \<Rightarrow> sys \<Rightarrow> sys option" where
  "join [] t s = (if t < length (heap s) \<and> isRunning (heap s ! t) then None else Some s)"
| "join (e # es) t s =
     (if t < length (heap s) \<and> isRunning (heap s ! t)
      then (case next_state (Work t e) s of None \<Rightarrow> None | Some s' \<Rightarrow> join es t s')
      else Some s)"

definition finish_wait :: "env list \<Rightarrow> sys \<Rightarrow> sys option" where
  "finish_wait es s =
     (case ui s of
        UiWait t closing \<Rightarrow>
          (case join es t s of None \<Rightarrow> None | Some s' \<Rightarrow> wait_returns s')
      | _ \<Rightarrow> Some s)"


definition toggle_and_return :: "datetime \<Rightarrow> env list \<Rightarrow> sys \<Rightarrow> sys option" where
  "toggle_and_return now es s = finish_wait es (toggle_video_recording now s)"

subsection \<open>Notions used by the properties\<close>

text \<open>A recording session is active: its flag is set and its thread is in the loop.\<close>

definition active :: "VideoRecorder \<Rightarrow> bool" where
  "active r = (is_recording r \<and> in_loop r)"





text \<open>The shape \<open>YYYYMMDD_HHMMSS\<close>.\<close>

definition is_digit :: "char \<Rightarrow> bool" where
  "is_digit c = (c \<in> set ''0123456789'')"

definition is_timestamp :: "string \<Rightarrow> bool" where
  "is_timestamp ts =
     (length ts = 15 \<and> list_all is_digit (take 8 ts) \<and> ts ! 8 = CHR ''_''
      \<and> list_all is_digit (drop 9 ts))"

text \<open>The number that a string of decimal digits denotes.\<close>

definition digit_value :: "char \<Rightarrow> nat" where
  "digit_value c = of_char c - 48"

definition decimal :: "string \<Rightarrow> nat" where
  "decimal ds = foldl (\<lambda>n c. 10 * n + digit_value c) 0 ds"

text \<open>The readings that the clock of a running machine gives.\<close>

definition valid_datetime :: "datetime \<Rightarrow> bool" where
  "valid_datetime t =
     (1000 \<le> year t \<and> year t \<le> 9999 \<and> 1 \<le> month t \<and> month t \<le> 12
      \<and> 1 \<le> day t \<and> day t \<le> 31 \<and> hour t < 24 \<and> minute t < 60 \<and> second t < 60)"

text \<open>One pass of the loop of recorder \<open>t\<close> per answer: the test of the flag, then the read.\<close>

definition loop_passes :: "nat \<Rightarrow> env list \<Rightarrow> event list" where
  "loop_passes t es = concat (map (\<lambda>e. [Work t e, Work t e]) es)"

text \<open>Concrete inputs.\<close>

definition t0 :: datetime where
  "t0 = \<lparr>year = 2024, month = 3, day = 9, hour = 14, minute = 5, second = 7\<rparr>"

definition t1 :: datetime where
  "t1 = \<lparr>year = 2024, month = 3, day = 9, hour = 14, minute = 6, second = 37\<rparr>"

definition e_ok :: env where
  "e_ok = \<lparr>dev_frame = Some (Frame 1), dev_width = 640, dev_height = 480, open_ok = True\<rparr>"

definition e_none :: env where
  "e_none = \<lparr>dev_frame = None, dev_width = 640, dev_height = 480, open_ok = True\<rparr>"

definition e_fail :: env where
  "e_fail = \<lparr>dev_frame = Some (Frame 1), dev_width = 640, dev_height = 480, open_ok = False\<rparr>"

text \<open>
  A state with one recorder, opened on a 640 by 480 device, standing at \<open>p\<close> with its
  flag at \<open>flag\<close>.
\<close>

definition recorder_at :: "wpc \<Rightarrow> bool \<Rightarrow> VideoRecorder" where
  "recorder_at p flag =
     \<lparr>out = Some (VideoWriter_init ''Recorder_20240309_140507.avi'' ''XVID'' 30 (640, 480) True),
      is_recording = flag, temp_file_name = ''Recorder_20240309_140507.avi'', pc = p\<rparr>"

definition sys_at :: "wpc \<Rightarrow> bool \<Rightarrow> sys" where
  "sys_at p flag =
     init\<lparr>video_thread := Some 0, heap := [recorder_at p flag],
          video_btn := ''Stop Recording'', files := {''Recorder_20240309_140507.avi''}\<rparr>"

text \<open>The recorder object behind reference \<open>t\<close>.\<close>

definition recorder :: "nat \<Rightarrow> sys \<Rightarrow> VideoRecorder" where
  "recorder t s = heap s ! t"

section \<open>Properties\<close>

subsection \<open>Auxiliary facts\<close>

lemma strftime_t0: "strftime t0 = ''20240309_140507''"
  by (simp add: strftime_def t0_def dec2_def dec4_def digit_def)

lemma is_digit_digit: "is_digit (digit n)"
proof -
  have "n mod 10 < length ''0123456789''" by simp
  then have "''0123456789'' ! (n mod 10) \<in> set ''0123456789''" by (rule nth_mem)
  then show ?thesis by (simp only: is_digit_def digit_def)
qed

lemma is_timestamp_strftime: "is_timestamp (strftime t)"
  by (simp add: is_timestamp_def strftime_def dec2_def dec4_def is_digit_digit)

lemma path_join_relative:
  "d \<noteq> [] \<Longrightarrow> c \<noteq> CHR ''/'' \<Longrightarrow>
   path_join d (c # n) = (if last d = CHR ''/'' then d else d @ ''/'') @ c # n"
  by (simp add: path_join_def)

subsection \<open>Capturing a photo\<close>

text \<open>
  C5. \<open>save_image\<close> with a successful frame read and a confirmed directory writes exactly
  one image, named \<open>capture_<timestamp>.jpg\<close>, in that directory; when the directory prompt
  is cancelled nothing is written and the frame is dropped (only the prompt was shown); when
  the frame read fails nothing happens at all: no write and no prompt.
\<close>

theorem save_image_spec:
  "(cap_read (cap s) dev = Some f \<and> d \<noteq> [] \<longrightarrow>
      images (save_image dev d now s)
        = images s @ [(path_join d (''capture_'' @ strftime now @ ''.jpg''), f)]
      \<and> files (save_image dev d now s)
        = insert (path_join d (''capture_'' @ strftime now @ ''.jpg'')) (files s)
      \<and> path_join d (''capture_'' @ strftime now @ ''.jpg'')
        = (if last d = CHR ''/'' then d else d @ ''/'') @ ''capture_'' @ strftime now @ ''.jpg''
      \<and> prompts (save_image dev d now s) = prompts s @ [''Select Directory''])
   \<and> (cap_read (cap s) dev = Some f \<and> d = [] \<longrightarrow>
        save_image dev d now s = s\<lparr>prompts := prompts s @ [''Select Directory'']\<rparr>)
   \<and> (cap_read (cap s) dev = None \<longrightarrow> save_image dev d now s = s)"
  by (simp add: save_image_def Let_def path_join_relative)

theorem save_image_spec_witness:
  "images (save_image (Some (Frame 1)) ''/home/u'' t0 init)
     = [(''/home/u/capture_20240309_140507.jpg'', Frame 1)]
   \<and> files (save_image (Some (Frame 1)) ''/home/u'' t0 init)
     = {''/home/u/capture_20240309_140507.jpg''}
   \<and> images (save_image (Some (Frame 1)) [] t0 init) = []
   \<and> files (save_image (Some (Frame 1)) [] t0 init) = {}
   \<and> save_image None ''/home/u'' t0 init = init"
  using save_image_spec [of init "Some (Frame 1)" "Frame 1" "''/home/u''" t0]
    save_image_spec [of init "Some (Frame 1)" "Frame 1" "[]" t0]
    save_image_spec [of init None "Frame 1" "''/home/u''" t0]
  by (simp add: cap_read_def init_def strftime_t0)

subsection \<open>The recorder thread\<close>

lemmas worker_defs = next_state_def run_step_def set_rec_def isRunning_def Let_def


text \<open>
  C4. Stopping is cooperative. Once \<open>stop\<close> has cleared the flag (which moves neither the
  thread nor the sink), the thread of the recorder goes on from where it stands: a read that
  is under way completes and its frame, when there is one, is written to the sink; a frame
  already read is written; the flag is looked at only at the loop test, where the loop is
  left. Then the sink is released, the queue of notifications being still as it was, and only
  after that \<open>recording_stopped\<close> is emitted with the temporary file name.
\<close>

theorem stop_is_cooperative:
  assumes "t < length (heap s)" and "uncaught s = None"
    and "\<not> is_recording (heap s ! t)" and "out (heap s ! t) = Some w"
  shows "(pc (heap s ! t) = AtRead \<and> cap_read (cap s) (dev_frame e1) = Some f \<longrightarrow>
            (\<exists>s'. exec [Work t e1, Work t e2, Work t e3, Work t e4] s = Some s'
               \<and> heap s' ! t = (heap s ! t)\<lparr>out := Some (vw_release (vw_write w f)), pc := AtEmitStopped\<rparr>
               \<and> queue s' = queue s)
          \<and> (\<exists>s'. exec [Work t e1, Work t e2, Work t e3, Work t e4, Work t e5] s = Some s'
               \<and> heap s' ! t = (heap s ! t)\<lparr>out := Some (vw_release (vw_write w f)), pc := Finished\<rparr>
               \<and> queue s' = queue s @ [recording_stopped (temp_file_name (heap s ! t))]))
    \<and> (pc (heap s ! t) = AtWrite f \<longrightarrow>
            (\<exists>s'. exec [Work t e2, Work t e3, Work t e4] s = Some s'
               \<and> heap s' ! t = (heap s ! t)\<lparr>out := Some (vw_release (vw_write w f)), pc := AtEmitStopped\<rparr>
               \<and> queue s' = queue s)
          \<and> (\<exists>s'. exec [Work t e2, Work t e3, Work t e4, Work t e5] s = Some s'
               \<and> heap s' ! t = (heap s ! t)\<lparr>out := Some (vw_release (vw_write w f)), pc := Finished\<rparr>
               \<and> queue s' = queue s @ [recording_stopped (temp_file_name (heap s ! t))]))
    \<and> (pc (heap s ! t) = AtLoopTest
          \<or> pc (heap s ! t) = AtRead \<and> cap_read (cap s) (dev_frame e1) = None \<longrightarrow>
            (\<exists>s'. exec (if pc (heap s ! t) = AtRead then [Work t e1, Work t e3, Work t e4]
                         else [Work t e3, Work t e4]) s = Some s'
               \<and> heap s' ! t = (heap s ! t)\<lparr>out := Some (vw_release w), pc := AtEmitStopped\<rparr>
               \<and> queue s' = queue s)
          \<and> (\<exists>s'. exec (if pc (heap s ! t) = AtRead then [Work t e1, Work t e3, Work t e4, Work t e5]
                         else [Work t e3, Work t e4, Work t e5]) s = Some s'
               \<and> heap s' ! t = (heap s ! t)\<lparr>out := Some (vw_release w), pc := Finished\<rparr>
               \<and> queue s' = queue s @ [recording_stopped (temp_file_name (heap s ! t))]))
    \<and> pc (stop r) = pc r \<and> out (stop r) = out r \<and> \<not> is_recording (stop r)
    \<and> \<not> vw_isOpened (vw_release w')
    \<and> vw_frames (vw_release (vw_write w f)) = (if vw_isOpened w then vw_frames w @ [f] else vw_frames w)"
  using assms by (auto simp add: worker_defs stop_def vw_release_def vw_write_def)

theorem stop_is_cooperative_witness:
  "map_option (\<lambda>s. (pc (heap s ! 0), map_option vw_frames (out (heap s ! 0)), queue s))
     (exec [Work 0 e_ok, Work 0 e_ok, Work 0 e_ok, Work 0 e_ok, Work 0 e_ok] (sys_at AtRead False))
   = Some (Finished, Some [Frame 1], [recording_stopped ''Recorder_20240309_140507.avi''])
   \<and> map_option (\<lambda>s. (pc (heap s ! 0), map_option vw_frames (out (heap s ! 0)), queue s))
     (exec [Work 0 e_ok, Work 0 e_ok, Work 0 e_ok, Work 0 e_ok] (sys_at (AtWrite (Frame 2)) False))
   = Some (Finished, Some [Frame 2], [recording_stopped ''Recorder_20240309_140507.avi''])
   \<and> map_option (\<lambda>s. (pc (heap s ! 0), map_option vw_frames (out (heap s ! 0)), queue s))
     (exec [Work 0 e_ok, Work 0 e_ok, Work 0 e_ok] (sys_at AtLoopTest False))
   = Some (Finished, Some [], [recording_stopped ''Recorder_20240309_140507.avi''])"
  using stop_is_cooperative [of 0 "sys_at AtRead False"
      "VideoWriter_init ''Recorder_20240309_140507.avi'' ''XVID'' 30 (640, 480) True"
      e_ok "Frame 1" e_ok e_ok e_ok e_ok]
    stop_is_cooperative [of 0 "sys_at (AtWrite (Frame 2)) False"
      "VideoWriter_init ''Recorder_20240309_140507.avi'' ''XVID'' 30 (640, 480) True"
      e_ok "Frame 2" e_ok e_ok e_ok e_ok]
    stop_is_cooperative [of 0 "sys_at AtLoopTest False"
      "VideoWriter_init ''Recorder_20240309_140507.avi'' ''XVID'' 30 (640, 480) True"
      e_ok "Frame 1" e_ok e_ok e_ok e_ok]
  by (simp add: worker_defs sys_at_def recorder_at_def init_def e_ok_def cap_read_def
      VideoWriter_init_def vw_write_def vw_release_def)

subsection \<open>Failed reads\<close>

lemma exec_append:
  "exec (xs @ ys) s = (case exec xs s of None \<Rightarrow> None | Some s' \<Rightarrow> exec ys s')"
  by (induction xs arbitrary: s) (auto split: option.splits)

lemma failed_pass:
  assumes "t < length (heap s)" and "uncaught s = None"
    and "pc (heap s ! t) = AtLoopTest" and "is_recording (heap s ! t)"
    and "cap_read (cap s) (dev_frame e) = None"
  shows "exec [Work t e, Work t e] s = Some s"
proof -
  have "(heap s ! t)\<lparr>pc := AtLoopTest\<rparr> = heap s ! t"
    using assms(3) by (metis VideoRecorder.surjective VideoRecorder.update_convs(4))
  then have "s\<lparr>heap := (heap s)[t := (heap s ! t)\<lparr>pc := AtLoopTest\<rparr>]\<rparr> = s"
    by simp
  then show ?thesis
    using assms by (simp add: worker_defs)
qed

lemma failed_passes:
  assumes "t < length (heap s)" and "uncaught s = None"
    and "pc (heap s ! t) = AtLoopTest" and "is_recording (heap s ! t)"
    and "\<forall>e\<in>set es. cap_read (cap s) (dev_frame e) = None"
  shows "exec (loop_passes t es) s = Some s"
  using assms
proof (induction es)
  case Nil
  then show ?case by (simp add: loop_passes_def)
next
  case (Cons e es)
  then have one: "exec [Work t e, Work t e] s = Some s"
    by (simp only: failed_pass list.set insert_iff ball_simps)
  have rest: "exec (loop_passes t es) s = Some s"
    using Cons by simp
  have "loop_passes t (e # es) = [Work t e, Work t e] @ loop_passes t es"
    by (simp add: loop_passes_def)
  then have "exec (loop_passes t (e # es)) s
      = (case exec [Work t e, Work t e] s of None \<Rightarrow> None
         | Some s' \<Rightarrow> exec (loop_passes t es) s')"
    by (simp only: exec_append)
  also have "\<dots> = exec (loop_passes t es) s"
    by (simp only: one option.case)
  finally show ?case
    by (simp only: rest)
qed

lemma join_done:
  "\<not> (t < length (heap s) \<and> isRunning (heap s ! t)) \<Longrightarrow> join es t s = Some s"
  by (cases es) auto

text \<open>
  C6. A failed frame read is skipped by every caller. While the recorder is in its loop with
  the flag set, any number of passes in which the read yields no frame leave the whole state
  as it was: the recorder is still active, nothing was written to the sink, no exception was
  raised. A stop requested after that still ends the session: \<open>toggle_video_recording\<close>
  returns, with the recorder finished, its sink released and \<open>recording_stopped\<close> emitted.
  The preview tick and the photo action do nothing on a failed read, and the next tick reads
  again.
\<close>

theorem failed_reads_are_skipped:
  assumes "t < length (heap s)" and "uncaught s = None" and "ui s = UiIdle"
    and "video_thread s = Some t" and "pc (heap s ! t) = AtLoopTest"
    and "is_recording (heap s ! t)" and "out (heap s ! t) = Some w"
    and "\<forall>e\<in>set es. cap_read (cap s) (dev_frame e) = None"
  shows "exec (loop_passes t es) s = Some s
    \<and> (\<exists>s'. toggle_and_return now (e1 # e2 # e3 # rest) s = Some s'
          \<and> ui s' = UiIdle \<and> uncaught s' = None
          \<and> heap s' ! t = (heap s ! t)\<lparr>out := Some (vw_release w), is_recording := False, pc := Finished\<rparr>
          \<and> queue s' = queue s @ [recording_stopped (temp_file_name (heap s ! t))])
    \<and> (cap_read (cap s) dev = None \<longrightarrow>
          update_frame dev s = s \<and> save_image dev d now s = s
          \<and> next_state (Tick dev') s = Some (update_frame dev' s))"
proof -
  have a: "exec (loop_passes t es) s = Some s"
    using assms by (simp only: failed_passes)
  have b: "\<exists>s'. toggle_and_return now (e1 # e2 # e3 # rest) s = Some s'
          \<and> ui s' = UiIdle \<and> uncaught s' = None
          \<and> heap s' ! t = (heap s ! t)\<lparr>out := Some (vw_release w), is_recording := False, pc := Finished\<rparr>
          \<and> queue s' = queue s @ [recording_stopped (temp_file_name (heap s ! t))]"
    using assms(1-7)
    by (simp add: toggle_and_return_def toggle_video_recording_def stop_video_recording_def
        finish_wait_def wait_returns_def stop_def worker_defs join_done)
  have c: "cap_read (cap s) dev = None \<longrightarrow>
          update_frame dev s = s \<and> save_image dev d now s = s
          \<and> next_state (Tick dev') s = Some (update_frame dev' s)"
    using assms(2,3) by (simp add: update_frame_def save_image_def next_state_def)
  from a b c show ?thesis by blast
qed

theorem failed_reads_are_skipped_witness:
  "exec (loop_passes 0 (replicate 10 e_none)) (sys_at AtLoopTest True)
     = Some (sys_at AtLoopTest True)
   \<and> map_option (\<lambda>s. (pc (heap s ! 0), map_option vw_frames (out (heap s ! 0)), ui s, uncaught s))
       (toggle_and_return t0 [e_none, e_none, e_none] (sys_at AtLoopTest True))
     = Some (Finished, Some [], UiIdle, None)
   \<and> update_frame None (sys_at AtLoopTest True) = sys_at AtLoopTest True"
  using failed_reads_are_skipped [of 0 "sys_at AtLoopTest True"
      "VideoWriter_init ''Recorder_20240309_140507.avi'' ''XVID'' 30 (640, 480) True"
      "replicate 10 e_none" t0 e_none e_none e_none "[]" None "[]" None]
  by (auto simp add: sys_at_def recorder_at_def init_def e_none_def cap_read_def
      VideoWriter_init_def vw_release_def)

subsection \<open>Closing the application\<close>



















lemma released_spin:
  assumes "\<not> cap_isOpened (cap s)" and "uncaught s = None" and "t < length (heap s)"
    and "is_recording (heap s ! t)"
    and "pc (heap s ! t) = AtLoopTest \<or> pc (heap s ! t) = AtRead"
  shows "\<exists>s'. exec (map (Work t) es) s = Some s' \<and> cap s' = cap s \<and> ui s' = ui s
           \<and> uncaught s' = None \<and> video_thread s' = video_thread s \<and> queue s' = queue s
           \<and> length (heap s') = length (heap s) \<and> is_recording (heap s' ! t)
           \<and> out (heap s' ! t) = out (heap s ! t)
           \<and> pc (heap s' ! t)
               = (if even (length es) = (pc (heap s ! t) = AtLoopTest) then AtLoopTest else AtRead)"
  using assms
proof (induction es arbitrary: s)
  case Nil
  then show ?case by auto
next
  case (Cons e es)
  define s1 where "s1 = run_step e t s"
  have step: "next_state (Work t e) s = Some s1"
    using Cons.prems by (auto simp add: s1_def next_state_def isRunning_def)
  have s1: "\<not> cap_isOpened (cap s1)" "uncaught s1 = None" "t < length (heap s1)"
    "is_recording (heap s1 ! t)"
    "pc (heap s1 ! t) = AtLoopTest \<or> pc (heap s1 ! t) = AtRead"
    and s1': "out (heap s1 ! t) = out (heap s ! t)"
    "cap s1 = cap s" "ui s1 = ui s" "video_thread s1 = video_thread s" "queue s1 = queue s"
    "length (heap s1) = length (heap s)"
    "(pc (heap s1 ! t) = AtLoopTest) = (pc (heap s ! t) \<noteq> AtLoopTest)"
    using Cons.prems
    by (auto simp add: s1_def run_step_def set_rec_def Let_def cap_read_def)
  from Cons.IH [OF s1] obtain s' where s':
    "exec (map (Work t) es) s1 = Some s'" "cap s' = cap s1" "ui s' = ui s1"
    "uncaught s' = None" "video_thread s' = video_thread s1" "queue s' = queue s1"
    "length (heap s') = length (heap s1)" "is_recording (heap s' ! t)"
    "out (heap s' ! t) = out (heap s1 ! t)"
    "pc (heap s' ! t)
       = (if even (length es) = (pc (heap s1 ! t) = AtLoopTest) then AtLoopTest else AtRead)"
    by blast
  have "exec (map (Work t) (e # es)) s = Some s'"
    using step s'(1) by simp
  moreover have "pc (heap s' ! t)
       = (if even (length (e # es)) = (pc (heap s ! t) = AtLoopTest) then AtLoopTest else AtRead)"
    using s'(10) s1'(7) by auto
  ultimately show ?case
    using s' s1' by auto
qed

lemma first_step_into_loop:
  assumes "uncaught s = None" and "t < length (heap s)" and "out (heap s ! t) = Some w"
    and "pc (heap s ! t) = AtWrite f \<or> pc (heap s ! t) = AtEmitStarted"
  shows "next_state (Work t e) s = Some (run_step e t s)
    \<and> cap (run_step e t s) = cap s \<and> ui (run_step e t s) = ui s
    \<and> uncaught (run_step e t s) = None \<and> video_thread (run_step e t s) = video_thread s
    \<and> length (heap (run_step e t s)) = length (heap s)
    \<and> is_recording (heap (run_step e t s) ! t) = is_recording (heap s ! t)
    \<and> pc (heap (run_step e t s) ! t) = AtLoopTest
    \<and> out (heap (run_step e t s) ! t)
        = Some (case pc (heap s ! t) of AtWrite g \<Rightarrow> vw_write w g | _ \<Rightarrow> w)
    \<and> queue (run_step e t s)
        = (if pc (heap s ! t) = AtEmitStarted then queue s @ [recording_started] else queue s)"
  using assms by (auto simp add: worker_defs)

text \<open>
  C10. In \<open>closeEvent\<close> the capture handle is released first, with the recorder not yet
  told to stop. From any state in which the recorder referred to has its flag set, after the
  release and any number of statements of its thread the flag is still set and the thread
  goes round its loop: every read it makes comes from the released handle and yields no
  frame, whatever the device would have delivered, so that the thread alternates between the
  test of the flag and the read and the sink receives nothing. The one frame that can still
  be written is a frame read before the release and not yet written. Only then the second
  part of \<open>closeEvent\<close> clears the flag (and nothing else) and waits. The stop cannot come
  before the release, the release leaves the recorders untouched, and it is the only one: the
  count of releases goes up by one.
\<close>

theorem release_precedes_stop:
  assumes "ui s = UiIdle" and "uncaught s = None" and "video_thread s = Some t"
    and "t < length (heap s)" and "is_recording (heap s ! t)"
    and "in_loop (heap s ! t) \<or> pc (heap s ! t) = AtEmitStarted"
    and "out (heap s ! t) = Some w"
  shows "(\<exists>s'. exec (Close # map (Work t) es) s = Some s'
            \<and> cap s' = cap_release (cap s) \<and> ui s' = UiClosing \<and> uncaught s' = None
            \<and> is_recording (heap s' ! t)
            \<and> (pc (heap s ! t) = AtLoopTest \<or> pc (heap s ! t) = AtRead \<longrightarrow>
                 pc (heap s' ! t)
                   = (if even (length es) = (pc (heap s ! t) = AtLoopTest) then AtLoopTest
                      else AtRead)
                 \<and> out (heap s' ! t) = Some w \<and> queue s' = queue s)
            \<and> (pc (heap s ! t) = AtWrite f \<longrightarrow>
                 pc (heap s' ! t)
                   = (if es = [] then AtWrite f else if odd (length es) then AtLoopTest
                      else AtRead)
                 \<and> out (heap s' ! t) = Some (if es = [] then w else vw_write w f)
                 \<and> queue s' = queue s)
            \<and> (pc (heap s ! t) = AtEmitStarted \<longrightarrow>
                 pc (heap s' ! t)
                   = (if es = [] then AtEmitStarted else if odd (length es) then AtLoopTest
                      else AtRead)
                 \<and> out (heap s' ! t) = Some w
                 \<and> queue s' = (if es = [] then queue s else queue s @ [recording_started]))
            \<and> (\<forall>e. cap_read (cap s') (dev_frame e) = None)
            \<and> (pc (heap s' ! t) = AtRead \<longrightarrow>
                  (\<forall>e. heap (run_step e t s') ! t = (heap s' ! t)\<lparr>pc := AtLoopTest\<rparr>))
            \<and> (\<exists>s''. next_state CloseStop s' = Some s''
                  \<and> cap s'' = cap_release (cap s) \<and> ui s'' = UiWait t True
                  \<and> heap s'' ! t = (heap s' ! t)\<lparr>is_recording := False\<rparr>))
    \<and> next_state CloseStop s = None
    \<and> heap (closeEvent_release s) = heap s
    \<and> \<not> cap_isOpened (cap_release (cap s))
    \<and> cap_release_calls (cap_release (cap s)) = Suc (cap_release_calls (cap s))"
proof -
  define s1 where "s1 = closeEvent_release s"
  have close: "next_state Close s = Some s1"
    using assms by (simp add: s1_def next_state_def)
  have s1: "\<not> cap_isOpened (cap s1)" "uncaught s1 = None" "t < length (heap s1)"
    "is_recording (heap s1 ! t)" "out (heap s1 ! t) = Some w"
    "cap s1 = cap_release (cap s)" "ui s1 = UiClosing" "video_thread s1 = Some t"
    "pc (heap s1 ! t) = pc (heap s ! t)" "queue s1 = queue s"
    using assms by (simp_all add: s1_def closeEvent_release_def cap_release_def)
  have main: "\<exists>s'. exec (map (Work t) es) s1 = Some s'
            \<and> cap s' = cap s1 \<and> ui s' = ui s1 \<and> uncaught s' = None
            \<and> video_thread s' = video_thread s1 \<and> length (heap s') = length (heap s1)
            \<and> is_recording (heap s' ! t)
            \<and> (pc (heap s ! t) = AtLoopTest \<or> pc (heap s ! t) = AtRead \<longrightarrow>
                 pc (heap s' ! t)
                   = (if even (length es) = (pc (heap s ! t) = AtLoopTest) then AtLoopTest
                      else AtRead)
                 \<and> out (heap s' ! t) = Some w \<and> queue s' = queue s)
            \<and> (pc (heap s ! t) = AtWrite f \<longrightarrow>
                 pc (heap s' ! t)
                   = (if es = [] then AtWrite f else if odd (length es) then AtLoopTest
                      else AtRead)
                 \<and> out (heap s' ! t) = Some (if es = [] then w else vw_write w f)
                 \<and> queue s' = queue s)
            \<and> (pc (heap s ! t) = AtEmitStarted \<longrightarrow>
                 pc (heap s' ! t)
                   = (if es = [] then AtEmitStarted else if odd (length es) then AtLoopTest
                      else AtRead)
                 \<and> out (heap s' ! t) = Some w
                 \<and> queue s' = (if es = [] then queue s else queue s @ [recording_started]))"
  proof (cases "pc (heap s ! t) = AtLoopTest \<or> pc (heap s ! t) = AtRead")
    case True
    then have "pc (heap s1 ! t) = AtLoopTest \<or> pc (heap s1 ! t) = AtRead"
      by (simp only: s1(9))
    from released_spin [OF s1(1-4) this, of es] show ?thesis
      using True s1 by auto
  next
    case False
    with assms(6) have p: "pc (heap s ! t) = AtEmitStarted \<or> (\<exists>g. pc (heap s ! t) = AtWrite g)"
      by (auto simp add: in_loop_def split: wpc.splits)
    show ?thesis
    proof (cases es)
      case Nil
      then show ?thesis using s1 p by auto
    next
      case (Cons e es')
      from p obtain g where p1: "pc (heap s1 ! t) = AtWrite g \<or> pc (heap s1 ! t) = AtEmitStarted"
        by (auto simp add: s1(9))
      define s2 where "s2 = run_step e t s1"
      from first_step_into_loop [OF s1(2,3,5) p1, of e]
      have s2: "next_state (Work t e) s1 = Some s2" "cap s2 = cap s1" "ui s2 = ui s1"
        "uncaught s2 = None" "video_thread s2 = video_thread s1"
        "length (heap s2) = length (heap s1)" "is_recording (heap s2 ! t)"
        "pc (heap s2 ! t) = AtLoopTest"
        "out (heap s2 ! t) = Some (case pc (heap s1 ! t) of AtWrite g \<Rightarrow> vw_write w g | _ \<Rightarrow> w)"
        "queue s2 = (if pc (heap s1 ! t) = AtEmitStarted then queue s1 @ [recording_started]
                     else queue s1)"
        using s1(4) by (simp_all add: s2_def)
      have pre: "\<not> cap_isOpened (cap s2)" "uncaught s2 = None" "t < length (heap s2)"
        "is_recording (heap s2 ! t)" "pc (heap s2 ! t) = AtLoopTest \<or> pc (heap s2 ! t) = AtRead"
        using s2 s1 by simp_all
      from released_spin [OF pre, of es'] obtain s' where s':
        "exec (map (Work t) es') s2 = Some s'" "cap s' = cap s2" "ui s' = ui s2"
        "uncaught s' = None" "video_thread s' = video_thread s2" "queue s' = queue s2"
        "length (heap s') = length (heap s2)" "is_recording (heap s' ! t)"
        "out (heap s' ! t) = out (heap s2 ! t)"
        "pc (heap s' ! t) = (if even (length es') then AtLoopTest else AtRead)"
        using s2(8) by auto
      have "exec (map (Work t) es) s1 = Some s'"
        using Cons s2(1) s'(1) by simp
      then show ?thesis
        using s' s2 s1 p Cons False by auto
    qed
  qed
  then obtain s' where s': "exec (map (Work t) es) s1 = Some s'"
    "cap s' = cap s1" "ui s' = ui s1" "uncaught s' = None"
    "video_thread s' = video_thread s1" "length (heap s') = length (heap s1)"
    "is_recording (heap s' ! t)"
    and traj: "(pc (heap s ! t) = AtLoopTest \<or> pc (heap s ! t) = AtRead \<longrightarrow>
                 pc (heap s' ! t)
                   = (if even (length es) = (pc (heap s ! t) = AtLoopTest) then AtLoopTest
                      else AtRead)
                 \<and> out (heap s' ! t) = Some w \<and> queue s' = queue s)
            \<and> (pc (heap s ! t) = AtWrite f \<longrightarrow>
                 pc (heap s' ! t)
                   = (if es = [] then AtWrite f else if odd (length es) then AtLoopTest
                      else AtRead)
                 \<and> out (heap s' ! t) = Some (if es = [] then w else vw_write w f)
                 \<and> queue s' = queue s)
            \<and> (pc (heap s ! t) = AtEmitStarted \<longrightarrow>
                 pc (heap s' ! t)
                   = (if es = [] then AtEmitStarted else if odd (length es) then AtLoopTest
                      else AtRead)
                 \<and> out (heap s' ! t) = Some w
                 \<and> queue s' = (if es = [] then queue s else queue s @ [recording_started]))"
    by blast
  have run: "exec (Close # map (Work t) es) s = Some s'"
    using close s'(1) by simp
  have reads: "\<forall>e. cap_read (cap s') (dev_frame e) = None"
    using s'(2) s1(1) by (simp add: cap_read_def)
  have next_read: "pc (heap s' ! t) = AtRead \<longrightarrow>
                  (\<forall>e. heap (run_step e t s') ! t = (heap s' ! t)\<lparr>pc := AtLoopTest\<rparr>)"
    using s'(2,6) s1(1,3) by (simp add: run_step_def set_rec_def Let_def cap_read_def)
  have stop: "\<exists>s''. next_state CloseStop s' = Some s''
                  \<and> cap s'' = cap_release (cap s) \<and> ui s'' = UiWait t True
                  \<and> heap s'' ! t = (heap s' ! t)\<lparr>is_recording := False\<rparr>"
    using s' s1
    by (simp add: next_state_def closeEvent_stop_def set_rec_def stop_def)
  have rest: "next_state CloseStop s = None \<and> heap (closeEvent_release s) = heap s
    \<and> \<not> cap_isOpened (cap_release (cap s))
    \<and> cap_release_calls (cap_release (cap s)) = Suc (cap_release_calls (cap s))"
    using assms(1,2)
    by (simp add: next_state_def closeEvent_release_def cap_release_def)
  have body: "exec (Close # map (Work t) es) s = Some s'
            \<and> cap s' = cap_release (cap s) \<and> ui s' = UiClosing \<and> uncaught s' = None
            \<and> is_recording (heap s' ! t)"
    using run s'(2-4,7) s1(6,7) by simp
  from body traj reads next_read stop rest show ?thesis
    by blast
qed


theorem release_precedes_stop_witness:
  "map_option (\<lambda>s. (cap s, pc (heap s ! 0), map_option vw_frames (out (heap s ! 0)),
                     is_recording (heap s ! 0), ui s))
     (exec (Close # map (Work 0) [e_ok, e_ok, e_ok, e_ok, e_ok]) (sys_at AtLoopTest True))
   = Some (\<lparr>cap_isOpened = False, cap_release_calls = 1\<rparr>, AtRead, Some [], True, UiClosing)
   \<and> map_option (\<lambda>s. (cap s, pc (heap s ! 0), map_option vw_frames (out (heap s ! 0)),
                     is_recording (heap s ! 0), ui s))
     (exec (Close # map (Work 0) [e_ok, e_ok, e_ok, e_ok, e_ok] @ [CloseStop])
        (sys_at (AtWrite (Frame 2)) True))
   = Some (\<lparr>cap_isOpened = False, cap_release_calls = 1\<rparr>, AtLoopTest, Some [Frame 2], False,
           UiWait 0 True)"
  using release_precedes_stop [of "sys_at AtLoopTest True" 0
      "VideoWriter_init ''Recorder_20240309_140507.avi'' ''XVID'' 30 (640, 480) True"
      "[e_ok, e_ok, e_ok, e_ok, e_ok]" "Frame 2"]
    release_precedes_stop [of "sys_at (AtWrite (Frame 2)) True" 0
      "VideoWriter_init ''Recorder_20240309_140507.avi'' ''XVID'' 30 (640, 480) True"
      "[e_ok, e_ok, e_ok, e_ok, e_ok]" "Frame 2"]
  by (simp add: sys_at_def recorder_at_def init_def e_ok_def cap_read_def cap_release_def
      VideoWriter_init_def vw_write_def worker_defs closeEvent_release_def closeEvent_stop_def
      stop_def in_loop_def)

subsection \<open>File names and encoding parameters\<close>

lemma temp_file_name_fixed:
  "next_state ev s = Some s' \<Longrightarrow> u < length (heap s) \<Longrightarrow>
   temp_file_name (heap s' ! u) = temp_file_name (heap s ! u)"
proof (cases ev)
  case (Work t e)
  assume "next_state ev s = Some s'" and "u < length (heap s)"
  with Work show ?thesis
    by (cases "u = t")
      (auto simp add: next_state_def run_step_def set_rec_def Let_def
        split: if_splits wpc.splits option.splits)
next
  case (VideoClick now)
  assume "next_state ev s = Some s'" and "u < length (heap s)"
  with VideoClick show ?thesis
    by (cases "video_thread s = Some u")
      (auto simp add: next_state_def toggle_video_recording_def start_video_recording_def
        stop_video_recording_def set_rec_def stop_def nth_append nth_list_update
        split: if_splits option.splits)
next
  case (Deliver d ok)
  assume "next_state ev s = Some s'" and "u < length (heap s)"
  with Deliver show ?thesis
    by (auto simp add: next_state_def deliver_def on_recording_started_def
        on_recording_stopped_def os_rename_def Let_def
        split: if_splits list.splits signal.splits sum.splits)
next
  case CloseStop
  assume "next_state ev s = Some s'" and "u < length (heap s)"
  with CloseStop show ?thesis
    by (cases "video_thread s = Some u")
      (auto simp add: next_state_def closeEvent_stop_def set_rec_def stop_def nth_list_update
        split: if_splits option.splits)
next
  case WaitDone
  assume "next_state ev s = Some s'" and "u < length (heap s)"
  with WaitDone show ?thesis
    by (auto simp add: next_state_def wait_returns_def split: if_splits ui_pc.splits)
qed (auto simp add: next_state_def update_frame_def save_image_def closeEvent_release_def
      Let_def split: if_splits option.splits)

lemma digit_value_digit: "digit_value (digit n) = n mod 10"
proof -
  have "n mod 10 < 10" by simp
  then have "n mod 10 = 0 \<or> n mod 10 = 1 \<or> n mod 10 = 2 \<or> n mod 10 = 3 \<or> n mod 10 = 4
      \<or> n mod 10 = 5 \<or> n mod 10 = 6 \<or> n mod 10 = 7 \<or> n mod 10 = 8 \<or> n mod 10 = 9"
    by arith
  then show ?thesis
    by (elim disjE) (simp_all add: digit_def digit_value_def)
qed

lemma decimal_dec2: "n < 100 \<Longrightarrow> decimal (dec2 n) = n"
proof -
  assume "n < 100"
  then have "n div 10 < 10"
    using less_mult_imp_div_less [of n 10 10] by simp
  then have "10 * (n div 10 mod 10) + n mod 10 = n"
    by simp
  then show ?thesis
    by (simp add: decimal_def dec2_def digit_value_digit)
qed

lemma decimal_dec4: "n < 10000 \<Longrightarrow> decimal (dec4 n) = n"
proof -
  assume "n < 10000"
  then have e4: "n div 1000 mod 10 = n div 1000"
    using less_mult_imp_div_less [of n 10 1000] by simp
  have "n div 1000 = n div 100 div 10"
    by (simp add: div_mult2_eq [symmetric])
  then have e3: "10 * (n div 1000) + n div 100 mod 10 = n div 100"
    by simp
  have "n div 100 = n div 10 div 10"
    by (simp add: div_mult2_eq [symmetric])
  then have e2: "10 * (n div 100) + n div 10 mod 10 = n div 10"
    by simp
  have e1: "10 * (n div 10) + n mod 10 = n"
    by simp
  have "10 * (10 * (10 * (n div 1000 mod 10) + n div 100 mod 10) + n div 10 mod 10)
      + n mod 10 = n"
    by (simp only: e4 e3 e2 e1)
  then show ?thesis
    using e4 by (simp add: decimal_def dec4_def digit_value_digit)
qed

lemma strftime_fields:
  "take 4 (strftime t) = dec4 (year t) \<and> take 2 (drop 4 (strftime t)) = dec2 (month t)
   \<and> take 2 (drop 6 (strftime t)) = dec2 (day t) \<and> strftime t ! 8 = CHR ''_''
   \<and> take 2 (drop 9 (strftime t)) = dec2 (hour t)
   \<and> take 2 (drop 11 (strftime t)) = dec2 (minute t)
   \<and> drop 13 (strftime t) = dec2 (second t)"
  by (simp add: strftime_def dec2_def dec4_def)

lemma strftime_decoded:
  assumes "valid_datetime t"
  shows "decimal (take 4 (strftime t)) = year t
   \<and> decimal (take 2 (drop 4 (strftime t))) = month t
   \<and> decimal (take 2 (drop 6 (strftime t))) = day t
   \<and> strftime t ! 8 = CHR ''_''
   \<and> decimal (take 2 (drop 9 (strftime t))) = hour t
   \<and> decimal (take 2 (drop 11 (strftime t))) = minute t
   \<and> decimal (drop 13 (strftime t)) = second t"
proof -
  from assms have "year t < 10000" "month t < 100" "day t < 100" "hour t < 100"
    "minute t < 100" "second t < 100"
    by (simp_all add: valid_datetime_def)
  then show ?thesis
    by (simp only: strftime_fields decimal_dec2 decimal_dec4 simp_thms)
qed

lemma t1_stamp: "strftime t1 = ''20240309_140637''"
  by (simp add: strftime_def t1_def dec2_def dec4_def digit_def)

text \<open>
  C9, as it is stated, does not hold of the program for photos: the timestamp in the name of
  an image is not taken when the photo action begins. \<open>save_image\<close> reads the frame, then
  shows the modal directory dialog, and reads the clock only after the dialog has returned. A
  photo taken at 14:05:07 whose dialog is closed at 14:06:37 is named after 14:06:37.
\<close>

theorem photo_named_after_dialog:
  "map fst (images (save_image_run
       \<lparr>clicked_at = t0, frame_read = Some (Frame 1), chosen_dir = ''/home/u'',
        dialog_closed_at = t1\<rparr> init))
     = [''/home/u/capture_20240309_140637.jpg'']
   \<and> ''capture_'' @ strftime t0 @ ''.jpg'' = ''capture_20240309_140507.jpg''"
  by (simp add: save_image_run_def save_image_def Let_def cap_read_def init_def path_join_def
      t1_stamp strftime_t0)

text \<open>
  C9, amended. The clock reading is printed as \<open>YYYYMMDD_HHMMSS\<close>: fifteen characters,
  digits around an underscore, of which the first four read as the year, the next two as the
  month, the next two as the day, and the three pairs after the underscore as the hour, the
  minute and the second. A saved image is named \<open>capture_<timestamp>.jpg\<close> inside the
  chosen directory, the timestamp being the clock reading taken after the directory dialog has
  returned; the time at which the action was started plays no part. A recorder is named
  \<open>Recorder_<timestamp>.avi\<close> with the clock reading of the click that creates it, and no
  transition of the program changes the name of an existing recorder; it is the name the sink
  is opened with and the one \<open>recording_stopped\<close> carries. The sink is opened with the
  codec \<open>XVID\<close>, 30 frames per second and the width and height the capture handle reports
  at that moment.
\<close>

theorem naming_and_encoding:
  "is_timestamp (strftime now)
   \<and> (valid_datetime now \<longrightarrow>
        decimal (take 4 (strftime now)) = year now
        \<and> decimal (take 2 (drop 4 (strftime now))) = month now
        \<and> decimal (take 2 (drop 6 (strftime now))) = day now
        \<and> strftime now ! 8 = CHR ''_''
        \<and> decimal (take 2 (drop 9 (strftime now))) = hour now
        \<and> decimal (take 2 (drop 11 (strftime now))) = minute now
        \<and> decimal (drop 13 (strftime now)) = second now)
   \<and> (cap_read (cap s) (frame_read a) = Some f \<and> chosen_dir a \<noteq> [] \<longrightarrow>
        map fst (images (save_image_run a s))
          = map fst (images s)
            @ [(if last (chosen_dir a) = CHR ''/'' then chosen_dir a else chosen_dir a @ ''/'')
               @ ''capture_'' @ strftime (dialog_closed_at a) @ ''.jpg''])
   \<and> save_image_run (a\<lparr>clicked_at := c\<rparr>) s = save_image_run a s
   \<and> heap (start_video_recording now s) ! length (heap s)
        = \<lparr>out = None, is_recording = False,
           temp_file_name = ''Recorder_'' @ strftime now @ ''.avi'', pc = AtOpen\<rparr>
   \<and> (ui s = UiIdle \<and> uncaught s = None
        \<and> (video_thread s = None \<or> \<not> is_recording (heap s ! the (video_thread s))) \<longrightarrow>
        map_option (\<lambda>s'. temp_file_name (heap s' ! length (heap s)))
            (next_state (VideoClick now) s)
          = Some (''Recorder_'' @ strftime now @ ''.avi''))
   \<and> (\<forall>ev s' u. next_state ev s = Some s' \<and> u < length (heap s) \<longrightarrow>
         temp_file_name (heap s' ! u) = temp_file_name (heap s ! u))
   \<and> (t < length (heap s) \<and> pc (heap s ! t) = AtOpen \<longrightarrow>
        out (heap (run_step e t s) ! t)
          = Some \<lparr>vw_filename = temp_file_name (heap s ! t), vw_fourcc = ''XVID'', vw_fps = 30,
                  vw_frameSize = (py_int (cap_get (cap s) (dev_width e)),
                                  py_int (cap_get (cap s) (dev_height e))),
                  vw_isOpened = open_ok e, vw_frames = [], vw_release_calls = 0\<rparr>)
   \<and> (t < length (heap s) \<and> pc (heap s ! t) = AtOpen \<and> cap_isOpened (cap s)
        \<and> dev_width e = of_int width \<and> dev_height e = of_int height \<longrightarrow>
        map_option vw_frameSize (out (heap (run_step e t s) ! t)) = Some (width, height))
   \<and> (t < length (heap s) \<and> pc (heap s ! t) = AtEmitStopped \<longrightarrow>
        queue (run_step e t s) = queue s @ [recording_stopped (temp_file_name (heap s ! t))])"
proof -
  have a: "is_timestamp (strftime now)"
    by (rule is_timestamp_strftime)
  have a': "valid_datetime now \<longrightarrow>
        decimal (take 4 (strftime now)) = year now
        \<and> decimal (take 2 (drop 4 (strftime now))) = month now
        \<and> decimal (take 2 (drop 6 (strftime now))) = day now
        \<and> strftime now ! 8 = CHR ''_''
        \<and> decimal (take 2 (drop 9 (strftime now))) = hour now
        \<and> decimal (take 2 (drop 11 (strftime now))) = minute now
        \<and> decimal (drop 13 (strftime now)) = second now"
    using strftime_decoded by blast
  have b: "cap_read (cap s) (frame_read a) = Some f \<and> chosen_dir a \<noteq> [] \<longrightarrow>
        map fst (images (save_image_run a s))
          = map fst (images s)
            @ [(if last (chosen_dir a) = CHR ''/'' then chosen_dir a else chosen_dir a @ ''/'')
               @ ''capture_'' @ strftime (dialog_closed_at a) @ ''.jpg'']"
    by (simp add: save_image_run_def save_image_def Let_def path_join_relative)
  have b': "save_image_run (a\<lparr>clicked_at := c\<rparr>) s = save_image_run a s"
    by (simp add: save_image_run_def)
  have c: "heap (start_video_recording now s) ! length (heap s)
        = \<lparr>out = None, is_recording = False,
           temp_file_name = ''Recorder_'' @ strftime now @ ''.avi'', pc = AtOpen\<rparr>"
    by (simp add: start_video_recording_def VideoRecorder_init_def start_def)
  have c': "ui s = UiIdle \<and> uncaught s = None
        \<and> (video_thread s = None \<or> \<not> is_recording (heap s ! the (video_thread s))) \<longrightarrow>
        map_option (\<lambda>s'. temp_file_name (heap s' ! length (heap s)))
            (next_state (VideoClick now) s)
          = Some (''Recorder_'' @ strftime now @ ''.avi'')"
    by (auto simp add: next_state_def toggle_video_recording_def start_video_recording_def
        VideoRecorder_init_def start_def)
  have d: "\<forall>ev s' u. next_state ev s = Some s' \<and> u < length (heap s) \<longrightarrow>
         temp_file_name (heap s' ! u) = temp_file_name (heap s ! u)"
    using temp_file_name_fixed by blast
  have e: "t < length (heap s) \<and> pc (heap s ! t) = AtOpen \<longrightarrow>
        out (heap (run_step e t s) ! t)
          = Some \<lparr>vw_filename = temp_file_name (heap s ! t), vw_fourcc = ''XVID'', vw_fps = 30,
                  vw_frameSize = (py_int (cap_get (cap s) (dev_width e)),
                                  py_int (cap_get (cap s) (dev_height e))),
                  vw_isOpened = open_ok e, vw_frames = [], vw_release_calls = 0\<rparr>"
    by (simp add: run_step_def set_rec_def Let_def VideoWriter_init_def)
  have f: "t < length (heap s) \<and> pc (heap s ! t) = AtEmitStopped \<longrightarrow>
        queue (run_step e t s) = queue s @ [recording_stopped (temp_file_name (heap s ! t))]"
    by (simp add: run_step_def set_rec_def Let_def)
  have e': "t < length (heap s) \<and> pc (heap s ! t) = AtOpen \<and> cap_isOpened (cap s)
        \<and> dev_width e = of_int width \<and> dev_height e = of_int height \<longrightarrow>
        map_option vw_frameSize (out (heap (run_step e t s) ! t)) = Some (width, height)"
    by (simp add: run_step_def set_rec_def Let_def VideoWriter_init_def cap_get_def py_int_def)
  from a a' b b' c c' d e e' f show ?thesis by blast
qed

theorem naming_and_encoding_witness:
  "is_timestamp ''20240309_140507''
   \<and> decimal ''2024'' = 2024 \<and> decimal ''03'' = 3 \<and> decimal ''09'' = 9
   \<and> decimal ''14'' = 14 \<and> decimal ''05'' = 5 \<and> decimal ''07'' = 7
   \<and> map fst (images (save_image_run
        \<lparr>clicked_at = t0, frame_read = Some (Frame 1), chosen_dir = ''/home/u'',
         dialog_closed_at = t1\<rparr> init))
       = [''/home/u/capture_20240309_140637.jpg'']
   \<and> map_option (\<lambda>s. (temp_file_name (heap s ! 0), out (heap s ! 0)))
       (exec [VideoClick t0, Work 0 e_ok] init)
     = Some (''Recorder_20240309_140507.avi'',
             Some \<lparr>vw_filename = ''Recorder_20240309_140507.avi'', vw_fourcc = ''XVID'',
                   vw_fps = 30, vw_frameSize = (640, 480), vw_isOpened = True,
                   vw_frames = [], vw_release_calls = 0\<rparr>)"
proof -
  have v: "valid_datetime t0"
    by (simp add: valid_datetime_def t0_def)
  have fields: "year t0 = 2024" "month t0 = 3" "day t0 = 9" "hour t0 = 14" "minute t0 = 5"
    "second t0 = 7"
    by (simp_all add: t0_def)
  from v naming_and_encoding [where now = t0 and s = init
      and a = "\<lparr>clicked_at = t0, frame_read = Some (Frame 1), chosen_dir = ''/home/u'',
                dialog_closed_at = t1\<rparr>"
      and f = "Frame 1" and t = 0 and e = e_ok]
    naming_and_encoding [where now = t0 and s = "start_video_recording t0 init"
      and a = "\<lparr>clicked_at = t0, frame_read = Some (Frame 1), chosen_dir = ''/home/u'',
                dialog_closed_at = t1\<rparr>"
      and f = "Frame 1" and t = 0 and e = e_ok]
  show ?thesis
    by (simp add: fields strftime_t0 t1_stamp init_def cap_read_def cap_get_def py_int_def e_ok_def
      next_state_def toggle_video_recording_def start_video_recording_def
      VideoRecorder_init_def start_def isRunning_def run_step_def set_rec_def Let_def
      VideoWriter_init_def save_image_run_def save_image_def path_join_def)
qed

subsection \<open>Starting and stopping a recording\<close>





text \<open>
  C2, as it is stated, does not hold of the program: \<open>run\<close> never looks at whether the
  sink was opened. With an encoder that fails to open, the recorder still sets its flag,
  emits \<open>recording_started\<close> and enters its loop, no exception is raised, and the button
  shows the stop label once the notification is delivered.
\<close>

theorem encoder_failure_enters_active:
  "map_option (recorder 0)
     (exec [VideoClick t0, Work 0 e_fail, Work 0 e_fail, Work 0 e_fail, Deliver [] True] init)
   = Some \<lparr>out = Some (VideoWriter_init ''Recorder_20240309_140507.avi'' ''XVID'' 30 (640, 480) False),
           is_recording = True, temp_file_name = ''Recorder_20240309_140507.avi'',
           pc = AtLoopTest\<rparr>
   \<and> map_option video_btn
     (exec [VideoClick t0, Work 0 e_fail, Work 0 e_fail, Work 0 e_fail, Deliver [] True] init)
   = Some ''Stop Recording''
   \<and> map_option uncaught
     (exec [VideoClick t0, Work 0 e_fail, Work 0 e_fail, Work 0 e_fail, Deliver [] True] init)
   = Some None"
  by code_simp

lemma unopened_sink_stays_empty:
  assumes "exec (map (Work t) es) s = Some s'" and "t < length (heap s)"
    and "out (heap s ! t) = Some w" and "\<not> vw_isOpened w" and "vw_frames w = []"
    and "pc (heap s ! t) \<noteq> AtOpen"
  shows "\<exists>w'. out (heap s' ! t) = Some w' \<and> \<not> vw_isOpened w' \<and> vw_frames w' = []"
  using assms
proof (induction es arbitrary: s w)
  case Nil
  then show ?case by simp
next
  case (Cons e es)
  from Cons.prems(1) obtain s1 where s1: "next_state (Work t e) s = Some s1"
    and rest: "exec (map (Work t) es) s1 = Some s'"
    by (auto split: option.splits)
  from s1 Cons.prems(2) have eq: "s1 = run_step e t s"
    by (simp add: next_state_def split: if_splits)
  have "\<exists>w1. t < length (heap s1) \<and> out (heap s1 ! t) = Some w1 \<and> \<not> vw_isOpened w1
      \<and> vw_frames w1 = [] \<and> pc (heap s1 ! t) \<noteq> AtOpen"
    using Cons.prems(2-6)
    by (cases "pc (heap s ! t)")
      (auto simp add: eq run_step_def set_rec_def Let_def vw_write_def vw_release_def
        split: option.splits)
  then obtain w1 where "t < length (heap s1)" "out (heap s1 ! t) = Some w1"
    "\<not> vw_isOpened w1" "vw_frames w1 = []" "pc (heap s1 ! t) \<noteq> AtOpen"
    by blast
  from Cons.IH [OF rest this] show ?case .
qed

text \<open>
  C2, amended. When the sink fails to open, the recorder does not notice: after the three
  statements that follow it is active (flag set, in the loop), it has emitted
  \<open>recording_started\<close> and nothing else, no file was created, no exception was raised and
  the label is untouched by the thread. What does hold of the claim is that no frame is ever
  appended: every write goes to the sink that is not opened and is dropped, whatever the
  thread does afterwards.
\<close>

theorem encoder_failure_not_detected:
  assumes "t < length (heap s)" and "uncaught s = None" and "pc (heap s ! t) = AtOpen"
    and "\<not> open_ok e"
  shows "\<exists>s' w. exec [Work t e, Work t ea, Work t eb] s = Some s'
           \<and> active (heap s' ! t) \<and> queue s' = queue s @ [recording_started]
           \<and> files s' = files s \<and> uncaught s' = None \<and> video_btn s' = video_btn s
           \<and> out (heap s' ! t) = Some w \<and> \<not> vw_isOpened w \<and> vw_frames w = []
           \<and> vw_write w f = w
           \<and> (\<forall>es s''. exec (map (Work t) es) s' = Some s'' \<longrightarrow>
                 (\<exists>w'. out (heap s'' ! t) = Some w' \<and> \<not> vw_isOpened w' \<and> vw_frames w' = []))"
proof -
  define w where "w = VideoWriter_init (temp_file_name (heap s ! t)) ''XVID'' 30
      (py_int (cap_get (cap s) (dev_width e)), py_int (cap_get (cap s) (dev_height e))) False"
  define s' where "s' = run_step eb t (run_step ea t (run_step e t s))"
  have run: "exec [Work t e, Work t ea, Work t eb] s = Some s'"
    using assms by (simp add: s'_def worker_defs)
  have props: "active (heap s' ! t)" "queue s' = queue s @ [recording_started]"
    "files s' = files s" "uncaught s' = None" "video_btn s' = video_btn s"
    "out (heap s' ! t) = Some w" "t < length (heap s')" "pc (heap s' ! t) \<noteq> AtOpen"
    using assms by (simp_all add: s'_def w_def run_step_def set_rec_def Let_def active_def in_loop_def)
  have w: "\<not> vw_isOpened w" "vw_frames w = []" "vw_write w f = w"
    by (simp_all add: w_def VideoWriter_init_def vw_write_def)
  have later: "\<forall>es s''. exec (map (Work t) es) s' = Some s'' \<longrightarrow>
                 (\<exists>w'. out (heap s'' ! t) = Some w' \<and> \<not> vw_isOpened w' \<and> vw_frames w' = [])"
    using unopened_sink_stays_empty [OF _ props(7) props(6) w(1) w(2) props(8)] by blast
  from run props w later show ?thesis by blast
qed

theorem encoder_failure_not_detected_witness:
  "map_option (\<lambda>s. (active (heap s ! 0), queue s, files s, map_option vw_frames (out (heap s ! 0))))
     (exec [Work 0 e_fail, Work 0 e_fail, Work 0 e_fail] (start_video_recording t0 init))
   = Some (True, [recording_started], {}, Some [])"
  using encoder_failure_not_detected [where s = "start_video_recording t0 init" and t = 0
      and e = e_fail and ea = e_fail and eb = e_fail and f = "Frame 1"]
  by (auto simp add: start_video_recording_def VideoRecorder_init_def start_def init_def
      e_fail_def)

subsection \<open>Notifications\<close>

text \<open>
  C7, as it is stated, does not hold of the program: when the rename fails, the exception
  leaves \<open>on_recording_stopped\<close> before the last statement, and the reference is still set.
  Here a recording is started, stopped, and the user picks a directory the file cannot be
  moved to: the label is set back, the reference stays, nothing is shown to the user.
\<close>

theorem failed_rename_keeps_reference:
  "map_option (\<lambda>s. (video_thread s, uncaught s, video_btn s, notices s))
     (exec [VideoClick t0, Work 0 e_ok, Work 0 e_ok, Work 0 e_ok, Deliver [] True,
            VideoClick t0, Work 0 e_ok, Work 0 e_ok, Work 0 e_ok, WaitDone,
            Deliver ''/mnt/usb'' False] init)
   = Some (Some 0, Some OSError, ''Record Video'', [])"
  by code_simp

text \<open>
  C7, amended. \<open>on_recording_stopped\<close> clears the reference when the directory prompt is
  cancelled and when the file was moved. When the prompt is cancelled the files are as they
  were: the temporary file stays where it is and is not deleted. When the move fails,
  \<open>os.rename\<close> raises, nothing catches it, and the reference, the files and the notices
  are as they were. In all three cases the label was set back first.
\<close>

theorem on_recording_stopped_spec:
  "(d = [] \<longrightarrow>
      on_recording_stopped temp d ok s
        = s\<lparr>video_btn := ''Record Video'',
            prompts := prompts s @ [''Select Directory to Save Video''],
            video_thread := None\<rparr>
      \<and> files (on_recording_stopped temp d ok s) = files s)
   \<and> (d \<noteq> [] \<and> ok \<and> temp \<in> files s \<longrightarrow>
      video_thread (on_recording_stopped temp d ok s) = None
      \<and> files (on_recording_stopped temp d ok s) = insert (path_join d temp) (files s - {temp})
      \<and> notices (on_recording_stopped temp d ok s)
          = notices s @ [''Video saved to: '' @ path_join d temp]
      \<and> uncaught (on_recording_stopped temp d ok s) = uncaught s)
   \<and> (d \<noteq> [] \<and> \<not> (ok \<and> temp \<in> files s) \<longrightarrow>
      uncaught (on_recording_stopped temp d ok s) = Some OSError
      \<and> video_thread (on_recording_stopped temp d ok s) = video_thread s
      \<and> files (on_recording_stopped temp d ok s) = files s
      \<and> notices (on_recording_stopped temp d ok s) = notices s)
   \<and> video_btn (on_recording_stopped temp d ok s) = ''Record Video''"
  by (simp add: on_recording_stopped_def os_rename_def Let_def)

theorem on_recording_stopped_spec_witness:
  "video_thread (on_recording_stopped ''Recorder_20240309_140507.avi'' [] True
      (sys_at Finished False)) = None
   \<and> files (on_recording_stopped ''Recorder_20240309_140507.avi'' [] True
      (sys_at Finished False)) = {''Recorder_20240309_140507.avi''}
   \<and> video_thread (on_recording_stopped ''Recorder_20240309_140507.avi'' ''/home/u'' True
      (sys_at Finished False)) = None
   \<and> files (on_recording_stopped ''Recorder_20240309_140507.avi'' ''/home/u'' True
      (sys_at Finished False)) = {''/home/u/Recorder_20240309_140507.avi''}
   \<and> video_thread (on_recording_stopped ''Recorder_20240309_140507.avi'' ''/mnt/usb'' False
      (sys_at Finished False)) = Some 0"
  using on_recording_stopped_spec [where temp = "''Recorder_20240309_140507.avi''"
      and d = "[]" and ok = True and s = "sys_at Finished False"]
    on_recording_stopped_spec [where temp = "''Recorder_20240309_140507.avi''"
      and d = "''/home/u''" and ok = True and s = "sys_at Finished False"]
    on_recording_stopped_spec [where temp = "''Recorder_20240309_140507.avi''"
      and d = "''/mnt/usb''" and ok = False and s = "sys_at Finished False"]
  by (auto simp add: sys_at_def init_def path_join_def)





end
